theory Spec2Isabelle
  imports Main
begin

section \<open>Python strings and the library functions the program calls\<close>

text \<open>
  The program is \<^verbatim>\<open>main.py\<close>, a PyQt5 window that converts dropped MP4 files to
  MOV by running ffmpeg once per file. The embedding fixes the platform to the
  source's "Mac/Linux" branch: \<^verbatim>\<open>os.path\<close> is \<^verbatim>\<open>posixpath\<close> and
  \<^verbatim>\<open>pathlib.Path\<close> is \<^verbatim>\<open>PosixPath\<close>. A Python \<^verbatim>\<open>str\<close> is a
  \<^typ>\<open>string\<close> whose characters are the code points below 256.
\<close>

definition isspace :: "char \<Rightarrow> bool" where
  \<comment> \<open>\<^verbatim>\<open>str.isspace\<close> on one code point below 256: TAB..CR, FS..US, space, NEL, NBSP.\<close>
  "isspace c =
     (let n = (of_char c :: nat)
      in (9 \<le> n \<and> n \<le> 13) \<or> (28 \<le> n \<and> n \<le> 32) \<or> n = 133 \<or> n = 160)"

definition strip :: "string \<Rightarrow> string" where
  \<comment> \<open>\<^verbatim>\<open>str.strip()\<close>: leading and trailing whitespace removed.\<close>
  "strip s = rev (dropWhile isspace (rev (dropWhile isspace s)))"

definition lower_char :: "char \<Rightarrow> char" where
  \<comment> \<open>\<^verbatim>\<open>str.lower\<close> on one code point below 256: A..Z and the Latin-1 capitals.\<close>
  "lower_char c =
     (let n = (of_char c :: nat)
      in if (65 \<le> n \<and> n \<le> 90) \<or> (192 \<le> n \<and> n \<le> 222 \<and> n \<noteq> 215)
         then char_of (n + 32) else c)"

definition lower :: "string \<Rightarrow> string" where
  "lower s = map lower_char s"

definition rfind :: "string \<Rightarrow> char \<Rightarrow> int" where
  \<comment> \<open>\<^verbatim>\<open>s.rfind(c)\<close>: the index of the last occurrence of \<open>c\<close>, or -1.\<close>
  "rfind s c =
     (if c \<in> set s
      then int (length s) - 1 - int (length (takeWhile (\<lambda>x. x \<noteq> c) (rev s)))
      else - 1)"

definition startswith :: "string \<Rightarrow> string \<Rightarrow> bool" where
  "startswith s pre = (take (length pre) s = pre)"

definition endswith :: "string \<Rightarrow> string \<Rightarrow> bool" where
  "endswith s suf = (length suf \<le> length s \<and> drop (length s - length suf) s = suf)"

fun str_nat :: "nat \<Rightarrow> string" where
  \<comment> \<open>\<^verbatim>\<open>str(n)\<close> of a non-negative integer: its decimal digits.\<close>
  "str_nat n =
     (if n < 10 then [''0123456789'' ! n]
      else str_nat (n div 10) @ [''0123456789'' ! (n mod 10)])"

declare str_nat.simps [simp del]

definition zero_pad :: "nat \<Rightarrow> nat \<Rightarrow> string" where
  \<comment> \<open>A number in decimal, padded with zeros on the left to at least \<open>w\<close> digits.\<close>
  "zero_pad w n = replicate (w - length (str_nat n)) CHR ''0'' @ str_nat n"

subsection \<open>\<^verbatim>\<open>os.path\<close> (posixpath)\<close>

definition os_path_basename :: "string \<Rightarrow> string" where
  \<comment> \<open>\<^verbatim>\<open>i = p.rfind('/') + 1; return p[i:]\<close>\<close>
  "os_path_basename p = drop (nat (rfind p CHR ''/'' + 1)) p"

definition os_path_splitext :: "string \<Rightarrow> string \<times> string" where
  \<comment> \<open>\<^verbatim>\<open>genericpath._splitext(p, '/', None, '.')\<close>: split at the last dot of the
      last component, unless only dots stand before it in that component.\<close>
  "os_path_splitext p =
     (let sepIndex = rfind p CHR ''/'';
          dotIndex = rfind p CHR ''.''
      in if dotIndex > sepIndex \<and>
            dropWhile (\<lambda>x. x = CHR ''.'') (drop (nat (sepIndex + 1)) (take (nat dotIndex) p)) \<noteq> []
         then (take (nat dotIndex) p, drop (nat dotIndex) p)
         else (p, []))"

definition os_path_join :: "string \<Rightarrow> string \<Rightarrow> string" where
  \<comment> \<open>\<^verbatim>\<open>posixpath.join(a, b)\<close>\<close>
  "os_path_join a b =
     (if startswith b ''/'' then b
      else if a = [] \<or> endswith a ''/'' then a @ b
      else a @ ''/'' @ b)"

subsection \<open>\<^verbatim>\<open>datetime\<close>\<close>

record datetime =
  year :: nat
  month :: nat
  day :: nat

definition strftime_Ymd :: "datetime \<Rightarrow> string" where
  \<comment> \<open>\<^verbatim>\<open>strftime("%Y-%m-%d")\<close>: four digits of year, two of month, two of day.\<close>
  "strftime_Ymd d = zero_pad 4 (year d) @ ''-'' @ zero_pad 2 (month d) @ ''-'' @ zero_pad 2 (day d)"

subsection \<open>\<^verbatim>\<open>pathlib\<close> (PosixPath) and the file system it reads\<close>

text \<open>
  What the file system holds at a path: a regular file, or a directory with its
  entries in the order \<^verbatim>\<open>os.scandir\<close> lists them. A dropped URL is given by the
  string \<^verbatim>\<open>str(pathlib.Path(url.toLocalFile()))\<close>.
\<close>

datatype node = File | Dir "(string \<times> node) list"

type_synonym filesystem = "string \<Rightarrow> node option"

definition is_file :: "filesystem \<Rightarrow> string \<Rightarrow> bool" where
  "is_file fs p = (case fs p of Some File \<Rightarrow> True | _ \<Rightarrow> False)"

definition is_dir :: "filesystem \<Rightarrow> string \<Rightarrow> bool" where
  "is_dir fs p = (case fs p of Some (Dir _) \<Rightarrow> True | _ \<Rightarrow> False)"

definition path_suffix :: "string \<Rightarrow> string" where
  \<comment> \<open>\<^verbatim>\<open>PurePath.suffix\<close>:
      \<^verbatim>\<open>i = name.rfind('.'); return name[i:] if 0 < i < len(name) - 1 else ''\<close>\<close>
  "path_suffix p =
     (let name = os_path_basename p; i = rfind name CHR ''.''
      in if 0 < i \<and> i < int (length name) - 1 then drop (nat i) name else [])"

definition child :: "string \<Rightarrow> string \<Rightarrow> string" where
  \<comment> \<open>\<^verbatim>\<open>str(parent / name)\<close> for an entry \<open>name\<close> of the directory \<open>parent\<close>.\<close>
  "child parent name =
     (if parent = ''.'' then name
      else if endswith parent ''/'' then parent @ name
      else parent @ ''/'' @ name)"

definition fnmatch_mp4 :: "string \<Rightarrow> bool" where
  \<comment> \<open>The pattern \<^verbatim>\<open>*.mp4\<close> on an entry's name; a PosixPath compares case-sensitively.\<close>
  "fnmatch_mp4 name = endswith name ''.mp4''"

fun select_mp4 :: "string \<Rightarrow> (string \<times> node) list \<Rightarrow> string list" where
  \<comment> \<open>The entries of one directory whose name matches, files and directories alike.\<close>
  "select_mp4 parent [] = []"
| "select_mp4 parent ((name, n) # es) =
     (if fnmatch_mp4 name then child parent name # select_mp4 parent es
      else select_mp4 parent es)"

fun rglob_mp4 :: "string \<Rightarrow> (string \<times> node) list \<Rightarrow> string list"
  and rglob_subdirs :: "string \<Rightarrow> (string \<times> node) list \<Rightarrow> string list" where
  \<comment> \<open>\<^verbatim>\<open>p.rglob("*.mp4")\<close>: the matches of the directory itself, then those of each
      subdirectory in turn, depth first.\<close>
  "rglob_mp4 parent es = select_mp4 parent es @ rglob_subdirs parent es"
| "rglob_subdirs parent [] = []"
| "rglob_subdirs parent ((name, File) # es) = rglob_subdirs parent es"
| "rglob_subdirs parent ((name, Dir sub) # es) =
     rglob_mp4 (child parent name) sub @ rglob_subdirs parent es"

section \<open>DropArea\<close>

definition iterdir :: "filesystem \<Rightarrow> string \<Rightarrow> (string \<times> node) list" where
  \<comment> \<open>The entries of the directory at \<open>p\<close>.\<close>
  "iterdir fs p = (case fs p of Some (Dir es) \<Rightarrow> es | _ \<Rightarrow> [])"

definition add_url :: "filesystem \<Rightarrow> string list \<Rightarrow> string \<Rightarrow> string list" where
  \<comment> \<open>The body of the loop of \<^verbatim>\<open>dropEvent\<close> for one URL; the list is the list
      widget's items, and \<^verbatim>\<open>addItem\<close> appends to it.\<close>
  "add_url fs list_widget p =
     (if is_file fs p \<and> lower (path_suffix p) = ''.mp4'' then list_widget @ [p]
      else if is_dir fs p then list_widget @ rglob_mp4 p (iterdir fs p)
      else list_widget)"

definition dropEvent :: "filesystem \<Rightarrow> string list \<Rightarrow> string list \<Rightarrow> string list \<times> bool" where
  \<comment> \<open>\<^verbatim>\<open>DropArea.dropEvent\<close>: the new items, and whether the event was accepted
      (\<^verbatim>\<open>hasUrls()\<close> holds when the event carries a URL).\<close>
  "dropEvent fs list_widget urls =
     (if urls \<noteq> [] then (foldl (add_url fs) list_widget urls, True)
      else (list_widget, False))"

section \<open>ConverterApp\<close>

text \<open>
  What \<^verbatim>\<open>subprocess.run(..., check=True)\<close> does: it returns (exit status 0), or
  raises \<^verbatim>\<open>CalledProcessError\<close> (carrying \<^verbatim>\<open>str(e)\<close>), or raises
  \<^verbatim>\<open>FileNotFoundError\<close> (no executable at \<^verbatim>\<open>ffmpeg_path\<close>), or raises something
  that \<^verbatim>\<open>convert_files\<close> does not catch.
\<close>

datatype proc_result = Returned | CalledProcessError string | FileNotFoundError | OtherException

text \<open>
  The surroundings of one click on "Convert to MOV": the module's \<^verbatim>\<open>ffmpeg_path\<close>,
  the clock, whether a path exists, whether \<^verbatim>\<open>os.makedirs\<close> succeeds on a path, and
  what the \<open>i\<close>-th run of the converter does on its argument list.
\<close>

record env =
  ffmpeg_path :: string
  now :: datetime
  path_exists :: "string \<Rightarrow> bool"
  makedirs_ok :: "string \<Rightarrow> bool"
  subprocess_run :: "nat \<Rightarrow> string list \<Rightarrow> proc_result"

text \<open>
  The argument of \<^verbatim>\<open>progress.setValue\<close>: the literal 0, or
  \<^verbatim>\<open>int((i / total_files) * 100)\<close>, kept as the pair of \<open>i\<close> and \<open>total_files\<close>
  (the rounding of the float division is not part of the embedding).
\<close>

datatype progress_arg = Zero | Percent nat nat

text \<open>
  What a run does to the world outside the window, in order: the message boxes
  (title and text), \<^verbatim>\<open>os.makedirs\<close>, the runs of the converter with their
  results, the values given to the progress bar, and the calls of
  \<^verbatim>\<open>QApplication.processEvents()\<close>. What the event pump may dispatch meanwhile (a
  drop, a double click) is not part of a run.
\<close>

datatype event =
    Warning string string
  | Critical string string
  | Information string string
  | Makedirs string
  | Run "string list" proc_result
  | SetValue progress_arg
  | ProcessEvents

record app =
  list_widget :: "string list"
  output_input :: string
  progress_visible :: bool

definition resolve_output_dir :: "string \<Rightarrow> datetime \<Rightarrow> string" where
  \<comment> \<open>The first four lines of \<^verbatim>\<open>convert_files\<close>.\<close>
  "resolve_output_dir text today =
     (let output_dir = strip text
      in if output_dir = [] then ''Converted_'' @ strftime_Ymd today else output_dir)"

definition base_name :: "string \<Rightarrow> string" where
  "base_name file = fst (os_path_splitext (os_path_basename file))"

definition output_file :: "string \<Rightarrow> string \<Rightarrow> string" where
  "output_file output_dir file = os_path_join output_dir (base_name file @ ''.mov'')"

definition ffmpeg_argv :: "string \<Rightarrow> string \<Rightarrow> string \<Rightarrow> string list" where
  "ffmpeg_argv ffmpeg file out =
     [ffmpeg, ''-i'', file, ''-c:v'', ''copy'', ''-c:a'', ''pcm_s24le'', out, ''-y'']"

definition job :: "env \<Rightarrow> string \<Rightarrow> nat \<Rightarrow> string \<Rightarrow> proc_result" where
  \<comment> \<open>The result of the \<open>i\<close>-th run, on the file at position \<open>i\<close>.\<close>
  "job e output_dir i file =
     subprocess_run e i (ffmpeg_argv (ffmpeg_path e) file (output_file output_dir file))"

datatype loop_exit = LoopEnd | Return | Raise

fun for_files :: "env \<Rightarrow> string \<Rightarrow> nat \<Rightarrow> nat \<Rightarrow> string list \<Rightarrow> event list \<times> loop_exit" where
  \<comment> \<open>\<^verbatim>\<open>for i, file in enumerate(files, start=1)\<close>, from position \<open>i\<close> on.\<close>
  "for_files e output_dir total_files i [] = ([], LoopEnd)"
| "for_files e output_dir total_files i (file # files) =
     (let argv = ffmpeg_argv (ffmpeg_path e) file (output_file output_dir file)
      in case subprocess_run e i argv of
           Returned \<Rightarrow>
             (let (evs, x) = for_files e output_dir total_files (Suc i) files
              in (Run argv Returned # SetValue (Percent i total_files) # ProcessEvents # evs, x))
         | CalledProcessError err \<Rightarrow>
             (let (evs, x) = for_files e output_dir total_files (Suc i) files
              in (Run argv (CalledProcessError err) #
                  Critical ''Conversion Error'' (''Failed to convert '' @ file @ [CHR 0x0A] @ err) #
                  evs, x))
         | FileNotFoundError \<Rightarrow>
             ([Run argv FileNotFoundError,
               Critical ''FFmpeg Not Found'' (''Cannot find ffmpeg at '' @ ffmpeg_path e)], Return)
         | OtherException \<Rightarrow> ([Run argv OtherException], Raise))"

datatype outcome = Done | NoFiles | NotFound | Exception

definition convert_files :: "env \<Rightarrow> app \<Rightarrow> outcome \<times> app \<times> event list" where
  \<comment> \<open>\<^verbatim>\<open>ConverterApp.convert_files\<close>: how it ends, the window afterwards, and what it
      did. \<open>Exception\<close> is an exception that leaves the method.\<close>
  "convert_files e s =
     (let output_dir = resolve_output_dir (output_input s) (now e);
          files = list_widget s
      in if files = [] then
           (NoFiles, s,
            [Warning ''Error'' ''Please drag and drop at least one MP4 file or folder.''])
         else if \<not> path_exists e output_dir \<and> \<not> makedirs_ok e output_dir then
           (Exception, s, [Makedirs output_dir])
         else
           (let made = (if path_exists e output_dir then [] else [Makedirs output_dir]);
                s1 = s\<lparr>progress_visible := True\<rparr>;
                total_files = length files;
                (evs, x) = for_files e output_dir total_files 1 files
            in case x of
                 Raise \<Rightarrow> (Exception, s1, made @ SetValue Zero # evs)
               | Return \<Rightarrow> (NotFound, s1, made @ SetValue Zero # evs)
               | LoopEnd \<Rightarrow>
                   (Done, s1\<lparr>progress_visible := False, list_widget := []\<rparr>,
                    made @ SetValue Zero # evs @
                    [Information ''Done''
                       (''Converted '' @ str_nat (length files) @ '' files into '' @
                        [CHR 0x27] @ output_dir @ [CHR 0x27])])))"

subsection \<open>Reading a run\<close>

fun progress_emitted :: "event list \<Rightarrow> (nat \<times> nat) list" where
  \<comment> \<open>The fractions \<open>i / total_files\<close> the progress bar was given, in order.\<close>
  "progress_emitted [] = []"
| "progress_emitted (SetValue (Percent i n) # evs) = (i, n) # progress_emitted evs"
| "progress_emitted (ev # evs) = progress_emitted evs"

fun runs :: "event list \<Rightarrow> string list list" where
  \<comment> \<open>The argument lists of the converter's runs, in order.\<close>
  "runs [] = []"
| "runs (Run argv r # evs) = argv # runs evs"
| "runs (ev # evs) = runs evs"

fun succeeded :: "event list \<Rightarrow> nat" where
  \<comment> \<open>The number of runs that returned: the files that were converted.\<close>
  "succeeded [] = 0"
| "succeeded (Run argv Returned # evs) = Suc (succeeded evs)"
| "succeeded (ev # evs) = succeeded evs"

fun failures :: "event list \<Rightarrow> string list" where
  \<comment> \<open>The texts of the "Conversion Error" boxes, in order.\<close>
  "failures [] = []"
| "failures (Critical title text # evs) =
     (if title = ''Conversion Error'' then text # failures evs else failures evs)"
| "failures (ev # evs) = failures evs"

fun summaries :: "event list \<Rightarrow> string list" where
  \<comment> \<open>The texts of the "Done" boxes.\<close>
  "summaries [] = []"
| "summaries (Information title text # evs) = text # summaries evs"
| "summaries (ev # evs) = summaries evs"

fun makedirs_calls :: "event list \<Rightarrow> string list" where
  "makedirs_calls [] = []"
| "makedirs_calls (Makedirs d # evs) = d # makedirs_calls evs"
| "makedirs_calls (ev # evs) = makedirs_calls evs"

definition recoverable :: "proc_result \<Rightarrow> bool" where
  \<comment> \<open>The results after which the loop goes on to the next file.\<close>
  "recoverable r = (case r of Returned \<Rightarrow> True | CalledProcessError err \<Rightarrow> True | _ \<Rightarrow> False)"

fun jobs_recoverable :: "env \<Rightarrow> string \<Rightarrow> nat \<Rightarrow> string list \<Rightarrow> bool" where
  \<comment> \<open>Every one of the files, run from position \<open>i\<close> on, lets the loop go on.\<close>
  "jobs_recoverable e output_dir i [] = True"
| "jobs_recoverable e output_dir i (file # files) =
     (recoverable (job e output_dir i file) \<and> jobs_recoverable e output_dir (Suc i) files)"

subsection \<open>The converter's output files\<close>

text \<open>
  Modelled from the spec: the converter itself (ffmpeg) is a program outside the
  repository. The spec gives its arguments as the input path, the two stream
  directives, "the computed output path, and an overwrite-existing-output flag",
  and exit code zero as success. So a run that returned has written its output
  path (the argument before the last), replacing what was there when the last
  argument is \<^verbatim>\<open>-y\<close>. The disk is read here as a map from an output path to the
  source file it was converted from.
\<close>

type_synonym disk = "string \<Rightarrow> string option"

fun converter_writes :: "disk \<Rightarrow> event \<Rightarrow> disk" where
  "converter_writes disk (Run argv Returned) =
     (if length argv = 9 then
        (let inp = argv ! 2; out = argv ! 7; flag = argv ! 8
         in if flag = ''-y'' \<or> disk out = None then disk(out \<mapsto> inp) else disk)
      else disk)"
| "converter_writes disk ev = disk"

definition disk_after :: "disk \<Rightarrow> event list \<Rightarrow> disk" where
  "disk_after disk evs = foldl converter_writes disk evs"

subsection \<open>Sample surroundings\<close>

definition sample_env :: "(nat \<Rightarrow> proc_result) \<Rightarrow> env" where
  \<comment> \<open>7 March 2024, no output directory yet, and the \<open>i\<close>-th run of the converter
      ending as \<open>r i\<close>.\<close>
  "sample_env r =
     \<lparr>ffmpeg_path = ''ffmpeg/bin/ffmpeg'',
      now = \<lparr>year = 2024, month = 3, day = 7\<rparr>,
      path_exists = (\<lambda>p. False),
      makedirs_ok = (\<lambda>p. True),
      subprocess_run = (\<lambda>i argv. r i)\<rparr>"

definition three_files :: app where
  "three_files =
     \<lparr>list_widget = [''/v/a.mp4'', ''/v/b.mp4'', ''/w/a.MP4''],
      output_input = ''out'',
      progress_visible = False\<rparr>"

definition all_return :: "nat \<Rightarrow> proc_result" where
  "all_return i = Returned"

definition second_fails :: "nat \<Rightarrow> proc_result" where
  "second_fails i = (if i = 2 then CalledProcessError ''exit status 1'' else Returned)"

definition last_fails :: "nat \<Rightarrow> proc_result" where
  "last_fails i = (if i = 3 then CalledProcessError ''exit status 1'' else Returned)"

definition missing_from :: "nat \<Rightarrow> nat \<Rightarrow> proc_result" where
  "missing_from k i = (if k \<le> i then FileNotFoundError else Returned)"

definition sample_fs :: filesystem where
  \<comment> \<open>The directory \<^verbatim>\<open>/v\<close> with three MP4 files (one named in capitals), a text
      file and a subdirectory.\<close>
  "sample_fs p =
     (if p = ''/v'' then
        Some (Dir [(''a.mp4'', File), (''B.MP4'', File), (''notes.txt'', File),
                   (''sub'', Dir [(''c.mp4'', File)])])
      else if p = ''/v/a.mp4'' \<or> p = ''/v/B.MP4'' \<or> p = ''/v/notes.txt'' then Some File
      else None)"

section \<open>The output directory's name\<close>

lemma strip_middle: "dropWhile isspace s = strip s @ rev (takeWhile isspace (rev (dropWhile isspace s)))"
proof -
  define t where "t = dropWhile isspace s"
  have "rev (takeWhile isspace (rev t) @ dropWhile isspace (rev t)) = rev (rev t)"
    by (simp only: takeWhile_dropWhile_id)
  then have "rev (dropWhile isspace (rev t)) @ rev (takeWhile isspace (rev t)) = t"
    by (simp only: rev_append rev_rev_ident)
  then show ?thesis
    by (simp add: strip_def t_def)
qed

lemma strip_decomp:
  "\<exists>a b. s = a @ strip s @ b \<and> list_all isspace a \<and> list_all isspace b"
proof -
  define t where "t = dropWhile isspace s"
  have s: "s = takeWhile isspace s @ t"
    by (simp add: t_def)
  have t: "t = strip s @ rev (takeWhile isspace (rev t))"
    unfolding t_def by (rule strip_middle)
  have a: "list_all isspace (takeWhile isspace s)"
    by (simp add: list_all_iff) (meson set_takeWhileD)
  have b: "list_all isspace (rev (takeWhile isspace (rev t)))"
    by (simp add: list_all_iff) (meson set_takeWhileD)
  from s t have "s = takeWhile isspace s @ strip s @ rev (takeWhile isspace (rev t))"
    by simp
  with a b show ?thesis by blast
qed

lemma strip_ends:
  assumes "strip s \<noteq> []"
  shows "\<not> isspace (hd (strip s)) \<and> \<not> isspace (last (strip s))"
proof -
  define t where "t = dropWhile isspace s"
  from assms have ne: "dropWhile isspace (rev t) \<noteq> []"
    by (simp add: strip_def t_def)
  have "last (strip s) = hd (dropWhile isspace (rev t))"
    using ne by (simp add: strip_def t_def last_rev)
  with ne have l: "\<not> isspace (last (strip s))"
    by (simp add: hd_dropWhile)
  have t: "t = strip s @ rev (takeWhile isspace (rev t))"
    unfolding t_def by (rule strip_middle)
  with assms have "hd t = hd (strip s)"
    by (metis hd_append2)
  moreover from t assms have "t \<noteq> []" by auto
  then have "\<not> isspace (hd t)"
    unfolding t_def by (simp add: hd_dropWhile)
  ultimately show ?thesis using l by simp
qed

text \<open>
  Claim C7. The name of the output directory is the text of the input field with
  the whitespace at both ends removed (the field's text is that name between two
  runs of whitespace, and the name begins and ends with a character that is not
  whitespace), when that leaves anything; otherwise it is \<^verbatim>\<open>Converted_\<close> followed
  by the date as YYYY-MM-DD. The empty text on 7 March 2024 gives
  \<^verbatim>\<open>Converted_2024-03-07\<close>, and \<^verbatim>\<open>"  MyClips "\<close> gives \<^verbatim>\<open>MyClips\<close>.
\<close>

theorem resolve_output_dir_trimmed_or_dated:
  "resolve_output_dir field today =
     (if strip field \<noteq> [] then strip field else ''Converted_'' @ strftime_Ymd today)
   \<and> (\<exists>a b. field = a @ strip field @ b \<and> list_all isspace a \<and> list_all isspace b)
   \<and> (strip field \<noteq> [] \<longrightarrow> \<not> isspace (hd (strip field)) \<and> \<not> isspace (last (strip field)))
   \<and> resolve_output_dir [] \<lparr>year = 2024, month = 3, day = 7\<rparr> = ''Converted_2024-03-07''
   \<and> resolve_output_dir ''  MyClips '' today = ''MyClips''"
proof -
  have "resolve_output_dir [] \<lparr>year = 2024, month = 3, day = 7\<rparr> = ''Converted_2024-03-07''"
    by code_simp
  moreover have "resolve_output_dir ''  MyClips '' today = ''MyClips''"
    by (simp add: resolve_output_dir_def Let_def strip_def isspace_def)
  moreover have "resolve_output_dir field today =
     (if strip field \<noteq> [] then strip field else ''Converted_'' @ strftime_Ymd today)"
    by (simp add: resolve_output_dir_def Let_def)
  ultimately show ?thesis
    using strip_decomp [of field] strip_ends [of field] by blast
qed

theorem resolve_output_dir_witness:
  "resolve_output_dir ''  My Clips  '' \<lparr>year = 2024, month = 3, day = 7\<rparr> = ''My Clips''
   \<and> strip ''  My Clips  '' \<noteq> []
   \<and> \<not> isspace (hd (strip ''  My Clips  ''))
   \<and> resolve_output_dir [CHR 0x09, CHR '' ''] \<lparr>year = 2024, month = 12, day = 31\<rparr> =
       ''Converted_2024-12-31''"
proof -
  have s: "strip ''  My Clips  '' = ''My Clips''"
    by code_simp
  have d: "strip [CHR 0x09, CHR '' ''] = []"
    by code_simp
  have f: "strftime_Ymd \<lparr>year = 2024, month = 12, day = 31\<rparr> = ''2024-12-31''"
    by code_simp
  show ?thesis
    using resolve_output_dir_trimmed_or_dated
            [of "''  My Clips  ''" "\<lparr>year = 2024, month = 3, day = 7\<rparr>"]
          resolve_output_dir_trimmed_or_dated
            [of "[CHR 0x09, CHR '' '']" "\<lparr>year = 2024, month = 12, day = 31\<rparr>"]
    by (simp add: s d f)
qed

section \<open>An empty list of files\<close>

text \<open>
  Claim C6. With no file in the list, whatever the input field holds,
  \<^verbatim>\<open>convert_files\<close> shows the warning box and returns: that box is all it does, so no
  directory is made, the converter is not run, the progress bar is given no value,
  and the window is as it was.
\<close>

theorem convert_files_empty:
  "convert_files e (s\<lparr>list_widget := []\<rparr>) =
     (NoFiles, s\<lparr>list_widget := []\<rparr>,
      [Warning ''Error'' ''Please drag and drop at least one MP4 file or folder.''])
   \<and> makedirs_calls (snd (snd (convert_files e (s\<lparr>list_widget := []\<rparr>)))) = []
   \<and> runs (snd (snd (convert_files e (s\<lparr>list_widget := []\<rparr>)))) = []
   \<and> progress_emitted (snd (snd (convert_files e (s\<lparr>list_widget := []\<rparr>)))) = []"
  by (simp add: convert_files_def Let_def)

theorem convert_files_empty_witness:
  "fst (convert_files (sample_env all_return) (three_files\<lparr>list_widget := []\<rparr>)) = NoFiles
   \<and> snd (snd (convert_files (sample_env all_return) (three_files\<lparr>list_widget := []\<rparr>))) =
       [Warning ''Error'' ''Please drag and drop at least one MP4 file or folder.'']"
  using convert_files_empty [of "sample_env all_return" three_files] by simp

section \<open>The output file's name\<close>

lemma rfind_last: "c \<notin> set ys \<Longrightarrow> rfind (xs @ c # ys) c = int (length xs)"
proof -
  assume a: "c \<notin> set ys"
  then have "takeWhile (\<lambda>x. x \<noteq> c) (rev ys @ c # rev xs) = rev ys"
    by (subst takeWhile_append2) auto
  then show ?thesis
    by (simp add: rfind_def)
qed

lemma rfind_absent: "c \<notin> set s \<Longrightarrow> rfind s c = - 1"
  by (simp add: rfind_def)

lemma basename_plain: "CHR ''/'' \<notin> set name \<Longrightarrow> os_path_basename name = name"
  by (simp add: os_path_basename_def rfind_absent)

lemma basename_after_slash:
  "CHR ''/'' \<notin> set name \<Longrightarrow> os_path_basename (pre @ CHR ''/'' # name) = name"
proof -
  assume "CHR ''/'' \<notin> set name"
  then have "rfind (pre @ CHR ''/'' # name) CHR ''/'' = int (length pre)"
    by (rule rfind_last)
  moreover have "nat (int (length pre) + 1) = Suc (length pre)"
    by simp
  ultimately show ?thesis
    by (simp add: os_path_basename_def)
qed

lemma basename_no_slash: "CHR ''/'' \<notin> set (os_path_basename p)"
proof (cases "CHR ''/'' \<in> set p")
  case True
  then obtain xs ys where "p = xs @ CHR ''/'' # ys" "CHR ''/'' \<notin> set ys"
    by (meson split_list_last)
  then show ?thesis
    by (simp add: basename_after_slash)
next
  case False
  then show ?thesis
    by (simp add: basename_plain)
qed

lemma splitext_prefix: "\<exists>n. fst (os_path_splitext p) = take n p"
proof -
  have "fst (os_path_splitext p) = take (nat (rfind p CHR ''.'')) p \<or>
        fst (os_path_splitext p) = take (length p) p"
    by (simp add: os_path_splitext_def Let_def)
  then show ?thesis
    by blast
qed

lemma base_name_no_slash: "CHR ''/'' \<notin> set (base_name src)"
proof -
  obtain n where "base_name src = take n (os_path_basename src)"
    using splitext_prefix [of "os_path_basename src"] by (auto simp: base_name_def)
  then show ?thesis
    using basename_no_slash [of src] by (metis in_set_takeD)
qed

lemma join_plain:
  assumes "CHR ''/'' \<notin> set x"
  shows "os_path_join d x = (if d = [] \<or> endswith d ''/'' then d @ x else d @ ''/'' @ x)"
proof -
  have "\<not> startswith x ''/''"
    using assms by (cases x) (auto simp: startswith_def)
  then show ?thesis
    by (simp add: os_path_join_def)
qed

lemma endswith_slash: "endswith d ''/'' \<Longrightarrow> \<exists>d'. d = d' @ ''/''"
  by (metis endswith_def append_take_drop_id)

lemma basename_join:
  assumes "CHR ''/'' \<notin> set x"
  shows "os_path_basename (os_path_join d x) = x"
proof (cases "d = []")
  case True
  then show ?thesis using assms by (simp add: join_plain basename_plain)
next
  case False
  show ?thesis
  proof (cases "endswith d ''/''")
    case True
    then obtain d' where "d = d' @ ''/''" using endswith_slash by blast
    then show ?thesis using assms True by (simp add: join_plain basename_after_slash)
  next
    case False
    then show ?thesis using assms \<open>d \<noteq> []\<close> by (simp add: join_plain basename_after_slash)
  qed
qed

lemma splitext_name:
  assumes "CHR ''/'' \<notin> set stem" "dropWhile (\<lambda>x. x = CHR ''.'') stem \<noteq> []"
    and "CHR ''.'' \<notin> set ext" "CHR ''/'' \<notin> set ext"
  shows "os_path_splitext (stem @ CHR ''.'' # ext) = (stem, CHR ''.'' # ext)"
proof -
  have s: "rfind (stem @ CHR ''.'' # ext) CHR ''/'' = - 1"
    using assms by (simp add: rfind_absent)
  have d: "rfind (stem @ CHR ''.'' # ext) CHR ''.'' = int (length stem)"
    using assms by (simp add: rfind_last)
  show ?thesis
    using assms(2) by (simp add: os_path_splitext_def s d)
qed

lemma lower_char_fixes: "lower_char CHR ''.'' = CHR ''.''" "lower_char CHR ''/'' = CHR ''/''"
  by code_simp+

lemma lower_mp4_plain:
  assumes "lower ext = ''mp4''"
  shows "CHR ''.'' \<notin> set ext \<and> CHR ''/'' \<notin> set ext"
proof -
  have "CHR ''.'' \<notin> set (lower ext) \<and> CHR ''/'' \<notin> set (lower ext)"
    using assms by simp
  then show ?thesis
    unfolding lower_def using lower_char_fixes by (metis image_eqI set_map)
qed

lemma base_name_of:
  assumes "pre = [] \<or> endswith pre ''/''" "CHR ''/'' \<notin> set stem"
    and "dropWhile (\<lambda>x. x = CHR ''.'') stem \<noteq> []"
    and "CHR ''.'' \<notin> set ext" "CHR ''/'' \<notin> set ext"
  shows "base_name (pre @ stem @ ''.'' @ ext) = stem"
proof -
  have n: "CHR ''/'' \<notin> set (stem @ CHR ''.'' # ext)"
    using assms by simp
  have "os_path_basename (pre @ stem @ ''.'' @ ext) = stem @ CHR ''.'' # ext"
  proof (cases "pre = []")
    case True
    then show ?thesis using basename_plain [OF n] by simp
  next
    case False
    then obtain d where "pre = d @ ''/''" using assms(1) endswith_slash by blast
    then show ?thesis using basename_after_slash [OF n, of d] by simp
  qed
  then show ?thesis
    using splitext_name [OF assms(2-5)] by (simp add: base_name_def)
qed

text \<open>
  Claim C8. The output file of a source file is the output directory joined with
  the source's base name (its last component without the extension) and
  \<^verbatim>\<open>.mov\<close>: below a directory name that is not empty and does not end in a
  slash it is that name, a slash, the base name and \<^verbatim>\<open>.mov\<close>, and its own last
  component is always the base name and \<^verbatim>\<open>.mov\<close>. A source named
  \<open>stem.ext\<close>, in any directory, with \<open>ext\<close> spelling mp4 in any mix of
  capitals, has the output name \<open>stem.mov\<close>; so \<^verbatim>\<open>clip.MP4\<close> gives
  \<^verbatim>\<open>clip.mov\<close>.
\<close>

theorem output_file_is_stem_mov:
  "output_file output_dir src = os_path_join output_dir (base_name src @ ''.mov'')
   \<and> (output_dir \<noteq> [] \<and> \<not> endswith output_dir ''/'' \<longrightarrow>
        output_file output_dir src = output_dir @ ''/'' @ base_name src @ ''.mov'')
   \<and> os_path_basename (output_file output_dir src) = base_name src @ ''.mov''
   \<and> ((pre = [] \<or> endswith pre ''/'') \<and> CHR ''/'' \<notin> set stem \<and>
       dropWhile (\<lambda>x. x = CHR ''.'') stem \<noteq> [] \<and> lower ext = ''mp4'' \<longrightarrow>
        os_path_basename (output_file output_dir (pre @ stem @ ''.'' @ ext)) = stem @ ''.mov'')
   \<and> (lower ext = ''mp4'' \<longrightarrow>
        os_path_basename (output_file output_dir (''clip.'' @ ext)) = ''clip.mov'')"
proof -
  have n: "CHR ''/'' \<notin> set (base_name f @ ''.mov'')" for f
    using base_name_no_slash [of f] by simp
  have b: "os_path_basename (output_file output_dir f) = base_name f @ ''.mov''" for f
    unfolding output_file_def by (rule basename_join [OF n])
  have j: "output_dir \<noteq> [] \<and> \<not> endswith output_dir ''/'' \<longrightarrow>
        output_file output_dir src = output_dir @ ''/'' @ base_name src @ ''.mov''"
    unfolding output_file_def using join_plain [OF n, of output_dir src] by simp
  have g: "os_path_basename (output_file output_dir (pre @ stem @ ''.'' @ ext)) = stem @ ''.mov''"
    if "pre = [] \<or> endswith pre ''/''" "CHR ''/'' \<notin> set stem"
       "dropWhile (\<lambda>x. x = CHR ''.'') stem \<noteq> []" "lower ext = ''mp4''" for pre stem ext
  proof -
    from that(4) have "CHR ''.'' \<notin> set ext" "CHR ''/'' \<notin> set ext"
      using lower_mp4_plain by blast+
    with that(1-3) have "base_name (pre @ stem @ ''.'' @ ext) = stem"
      by (rule base_name_of)
    then show ?thesis
      by (simp only: b)
  qed
  have c: "os_path_basename (output_file output_dir (''clip.'' @ ext)) = ''clip.mov''"
    if "lower ext = ''mp4''"
  proof -
    have "os_path_basename (output_file output_dir ([] @ ''clip'' @ ''.'' @ ext)) =
          ''clip'' @ ''.mov''"
      using that by (intro g) simp_all
    then show ?thesis by simp
  qed
  have d: "output_file output_dir src = os_path_join output_dir (base_name src @ ''.mov'')"
    by (simp add: output_file_def)
  have g': "(pre = [] \<or> endswith pre ''/'') \<and> CHR ''/'' \<notin> set stem \<and>
       dropWhile (\<lambda>x. x = CHR ''.'') stem \<noteq> [] \<and> lower ext = ''mp4'' \<longrightarrow>
        os_path_basename (output_file output_dir (pre @ stem @ ''.'' @ ext)) = stem @ ''.mov''"
    using g [of pre stem ext] by blast
  have c': "lower ext = ''mp4'' \<longrightarrow>
        os_path_basename (output_file output_dir (''clip.'' @ ext)) = ''clip.mov''"
    using c by blast
  from d j b [of src] g' c' show ?thesis
    by (intro conjI)
qed

theorem output_file_witness:
  "os_path_basename (output_file ''out'' ''/v/clip.MP4'') = ''clip.mov''
   \<and> os_path_basename (output_file ''out'' ''clip.mp4'') = ''clip.mov''
   \<and> output_file ''out'' ''/v/clip.Mp4'' = ''out/clip.mov''"
proof -
  note t = output_file_is_stem_mov [of "''out''" "''/v/clip.Mp4''" "''/v/''" "''clip''" "''MP4''"]
  note u = output_file_is_stem_mov [of "''out''" "''/v/clip.Mp4''" "[]" "''clip''" "''mp4''"]
  have p: "(''/v/'' = [] \<or> endswith ''/v/'' ''/'') \<and> CHR ''/'' \<notin> set ''clip'' \<and>
           dropWhile (\<lambda>x. x = CHR ''.'') ''clip'' \<noteq> [] \<and> lower ''MP4'' = ''mp4''"
    by code_simp
  have q: "lower ''mp4'' = ''mp4''"
    by code_simp
  have r: "''out'' \<noteq> [] \<and> \<not> endswith ''out'' ''/''"
    by code_simp
  have s: "base_name ''/v/clip.Mp4'' = ''clip''"
    by code_simp
  have a: "os_path_basename (output_file ''out'' (''/v/'' @ ''clip'' @ ''.'' @ ''MP4'')) =
           ''clip'' @ ''.mov''"
    by (rule t [THEN conjunct2, THEN conjunct2, THEN conjunct2, THEN conjunct1, THEN mp, OF p])
  have b: "os_path_basename (output_file ''out'' (''clip.'' @ ''mp4'')) = ''clip.mov''"
    by (rule u [THEN conjunct2, THEN conjunct2, THEN conjunct2, THEN conjunct2, THEN mp, OF q])
  have c: "output_file ''out'' ''/v/clip.Mp4'' = ''out'' @ ''/'' @ base_name ''/v/clip.Mp4'' @ ''.mov''"
    by (rule t [THEN conjunct2, THEN conjunct1, THEN mp, OF r])
  from a b c s show ?thesis
    by simp
qed

section \<open>The loop over the files\<close>

lemma runs_append: "runs (xs @ ys) = runs xs @ runs ys"
  by (induction xs rule: runs.induct) simp_all

lemma succeeded_append: "succeeded (xs @ ys) = succeeded xs + succeeded ys"
  by (induction xs rule: succeeded.induct) simp_all

lemma failures_append: "failures (xs @ ys) = failures xs @ failures ys"
  by (induction xs rule: failures.induct) simp_all

lemma summaries_append: "summaries (xs @ ys) = summaries xs @ summaries ys"
  by (induction xs rule: summaries.induct) simp_all

lemma for_files_step:
  "for_files e d t i (f # fs) =
     (case job e d i f of
        Returned \<Rightarrow>
          (Run (ffmpeg_argv (ffmpeg_path e) f (output_file d f)) Returned #
           SetValue (Percent i t) # ProcessEvents # fst (for_files e d t (Suc i) fs),
           snd (for_files e d t (Suc i) fs))
      | CalledProcessError err \<Rightarrow>
          (Run (ffmpeg_argv (ffmpeg_path e) f (output_file d f)) (CalledProcessError err) #
           Critical ''Conversion Error'' (''Failed to convert '' @ f @ [CHR 0x0A] @ err) #
           fst (for_files e d t (Suc i) fs),
           snd (for_files e d t (Suc i) fs))
      | FileNotFoundError \<Rightarrow>
          ([Run (ffmpeg_argv (ffmpeg_path e) f (output_file d f)) FileNotFoundError,
            Critical ''FFmpeg Not Found'' (''Cannot find ffmpeg at '' @ ffmpeg_path e)], Return)
      | OtherException \<Rightarrow>
          ([Run (ffmpeg_argv (ffmpeg_path e) f (output_file d f)) OtherException], Raise))"
  by (simp add: job_def Let_def split: proc_result.split prod.split)

lemma for_files_append:
  "jobs_recoverable e d i xs \<Longrightarrow>
   for_files e d t i (xs @ ys) =
     (fst (for_files e d t i xs) @ fst (for_files e d t (i + length xs) ys),
      snd (for_files e d t (i + length xs) ys))"
proof (induction xs arbitrary: i)
  case Nil
  then show ?case by simp
next
  case (Cons x xs)
  then have r: "recoverable (job e d i x)" and rest: "jobs_recoverable e d (Suc i) xs"
    by simp_all
  note ih = Cons.IH [OF rest]
  show ?case
  proof (cases "job e d i x")
    case Returned
    then show ?thesis
      using ih by (simp add: for_files_step del: for_files.simps)
  next
    case (CalledProcessError err)
    then show ?thesis
      using ih by (simp add: for_files_step del: for_files.simps)
  next
    case FileNotFoundError
    then show ?thesis using r by (simp add: recoverable_def)
  next
    case OtherException
    then show ?thesis using r by (simp add: recoverable_def)
  qed
qed

lemma for_files_recoverable_ends:
  "jobs_recoverable e d i xs \<Longrightarrow> snd (for_files e d t i xs) = LoopEnd"
proof -
  assume "jobs_recoverable e d i xs"
  then have "for_files e d t i (xs @ []) =
      (fst (for_files e d t i xs) @ fst (for_files e d t (i + length xs) []),
       snd (for_files e d t (i + length xs) []))"
    by (rule for_files_append)
  then have "snd (for_files e d t i xs) = snd (for_files e d t (i + length xs) [])"
    by (simp add: prod_eq_iff)
  then show ?thesis
    by simp
qed

lemma summaries_for_files: "summaries (fst (for_files e d t i xs)) = []"
proof (induction xs arbitrary: i)
  case Nil
  then show ?case by simp
next
  case (Cons x xs)
  then show ?case
    by (cases "job e d i x") (simp_all add: for_files_step del: for_files.simps)
qed

lemma runs_for_files_ended:
  "jobs_recoverable e d i xs \<Longrightarrow>
   runs (fst (for_files e d t i xs)) = map (\<lambda>x. ffmpeg_argv (ffmpeg_path e) x (output_file d x)) xs"
proof (induction xs arbitrary: i)
  case Nil
  then show ?case by simp
next
  case (Cons x xs)
  then show ?case
    by (cases "job e d i x") (simp_all add: for_files_step recoverable_def del: for_files.simps)
qed

lemma counts_for_files_ended:
  "snd (for_files e d t i xs) = LoopEnd \<Longrightarrow>
   succeeded (fst (for_files e d t i xs)) + length (failures (fst (for_files e d t i xs))) = length xs"
proof (induction xs arbitrary: i)
  case Nil
  then show ?case by simp
next
  case (Cons x xs)
  then show ?case
    by (cases "job e d i x") (simp_all add: for_files_step del: for_files.simps)
qed

lemma progress_emitted_append:
  "progress_emitted (xs @ ys) = progress_emitted xs @ progress_emitted ys"
  by (induction xs rule: progress_emitted.induct) simp_all

lemma progress_for_files_bounds:
  "(j, n) \<in> set (progress_emitted (fst (for_files e d t i xs))) \<Longrightarrow>
   i \<le> j \<and> j < i + length xs \<and> n = t"
proof (induction xs arbitrary: i)
  case Nil
  then show ?case by simp
next
  case (Cons x xs)
  show ?case
  proof (cases "job e d i x")
    case Returned
    with Cons.prems have "(j, n) = (i, t) \<or>
        (j, n) \<in> set (progress_emitted (fst (for_files e d t (Suc i) xs)))"
      by (simp add: for_files_step del: for_files.simps)
    then show ?thesis
      using Cons.IH [of "Suc i"] by auto
  next
    case (CalledProcessError err)
    with Cons.prems have "(j, n) \<in> set (progress_emitted (fst (for_files e d t (Suc i) xs)))"
      by (simp add: for_files_step del: for_files.simps)
    then show ?thesis
      using Cons.IH [of "Suc i"] by auto
  next
    case FileNotFoundError
    with Cons.prems show ?thesis
      by (simp add: for_files_step del: for_files.simps)
  next
    case OtherException
    with Cons.prems show ?thesis
      by (simp add: for_files_step del: for_files.simps)
  qed
qed

lemma progress_for_files_increasing:
  "sorted_wrt (\<lambda>a b. fst a < fst b) (progress_emitted (fst (for_files e d t i xs)))"
proof (induction xs arbitrary: i)
  case Nil
  then show ?case by simp
next
  case (Cons x xs)
  have later: "i < fst b" if "b \<in> set (progress_emitted (fst (for_files e d t (Suc i) xs)))" for b
    using progress_for_files_bounds [of "fst b" "snd b" e d t "Suc i" xs] that by simp
  show ?case
  proof (cases "job e d i x")
    case Returned
    then show ?thesis
      using Cons.IH [of "Suc i"] later by (simp add: for_files_step del: for_files.simps)
  next
    case (CalledProcessError err)
    then show ?thesis
      using Cons.IH [of "Suc i"] by (simp add: for_files_step del: for_files.simps)
  next
    case FileNotFoundError
    then show ?thesis
      by (simp add: for_files_step del: for_files.simps)
  next
    case OtherException
    then show ?thesis
      by (simp add: for_files_step del: for_files.simps)
  qed
qed

section \<open>Dropping files and folders\<close>

lemma add_url_appends: "add_url fs items p = items @ add_url fs [] p"
  by (simp add: add_url_def)

lemma foldl_add_url_appends:
  "foldl (add_url fs) items urls = items @ foldl (add_url fs) [] urls"
proof (induction urls arbitrary: items)
  case Nil
  then show ?case by simp
next
  case (Cons p urls)
  have "foldl (add_url fs) items (p # urls) = foldl (add_url fs) (add_url fs items p) urls"
    by simp
  also have "\<dots> = add_url fs items p @ foldl (add_url fs) [] urls"
    by (rule Cons.IH)
  also have "\<dots> = items @ add_url fs [] p @ foldl (add_url fs) [] urls"
    using add_url_appends [of fs items p] by simp
  also have "\<dots> = items @ foldl (add_url fs) (add_url fs [] p) urls"
    using Cons.IH [of "add_url fs [] p"] by simp
  finally show ?case by simp
qed

lemma count_list_snoc: "count_list (xs @ [p]) p = Suc (count_list xs p)"
  by (induction xs) auto

text \<open>
  Claim C1, as the program has it. \<^verbatim>\<open>dropEvent\<close> never looks at the items
  already in the list: what a drop adds is appended to whatever is there. A
  dropped MP4 file is appended also when the list already holds its path, so each
  drop of it raises the number of items equal to it by one.
\<close>

theorem dropEvent_appends_without_check:
  "fst (dropEvent fs items urls) = items @ fst (dropEvent fs [] urls)
   \<and> (is_file fs p \<and> lower (path_suffix p) = ''.mp4'' \<longrightarrow>
        fst (dropEvent fs items [p]) = items @ [p] \<and>
        count_list (fst (dropEvent fs items [p])) p = Suc (count_list items p))"
proof -
  have "fst (dropEvent fs items urls) = items @ fst (dropEvent fs [] urls)"
    using foldl_add_url_appends [of fs items urls] by (simp add: dropEvent_def)
  moreover have "fst (dropEvent fs items [p]) = items @ [p]"
    if "is_file fs p \<and> lower (path_suffix p) = ''.mp4''"
    using that by (simp add: dropEvent_def add_url_def)
  ultimately show ?thesis
    by (simp add: count_list_snoc)
qed

theorem dropEvent_appends_witness:
  "is_file sample_fs ''/v/a.mp4'' \<and> lower (path_suffix ''/v/a.mp4'') = ''.mp4''
   \<and> fst (dropEvent sample_fs [''/v/a.mp4'', ''/x.mp4''] [''/v/a.mp4'']) =
       [''/v/a.mp4'', ''/x.mp4'', ''/v/a.mp4'']
   \<and> count_list (fst (dropEvent sample_fs [''/v/a.mp4'', ''/x.mp4''] [''/v/a.mp4''])) ''/v/a.mp4'' = 2"
proof -
  have h: "is_file sample_fs ''/v/a.mp4'' \<and> lower (path_suffix ''/v/a.mp4'') = ''.mp4''"
    by code_simp
  have c: "Suc (count_list [''/v/a.mp4'', ''/x.mp4''] ''/v/a.mp4'') = 2"
    by code_simp
  note t = dropEvent_appends_without_check
             [of sample_fs "[''/v/a.mp4'', ''/x.mp4'']" "[]" "''/v/a.mp4''"]
  from t [THEN conjunct2, THEN mp, OF h] h c show ?thesis
    by simp
qed

text \<open>
  The claim as stated fails: dropped on a list that already holds it,
  \<^verbatim>\<open>/v/a.mp4\<close> is added a second time, and dropped twice in one event it is
  added twice.
\<close>

theorem add_twice_counterexample:
  "''/v/a.mp4'' \<in> set [''/v/a.mp4'']
   \<and> fst (dropEvent sample_fs [''/v/a.mp4''] [''/v/a.mp4'']) \<noteq> [''/v/a.mp4'']
   \<and> fst (dropEvent sample_fs [] [''/v/a.mp4'', ''/v/a.mp4'']) = [''/v/a.mp4'', ''/v/a.mp4'']
   \<and> \<not> distinct (fst (dropEvent sample_fs [''/v/a.mp4''] [''/v/a.mp4'']))"
  by code_simp

text \<open>
  Claim C4, on a folder with three MP4 files of which one is named
  \<^verbatim>\<open>B.MP4\<close>: dropping the folder adds the two files named in small letters and
  leaves \<^verbatim>\<open>B.MP4\<close> out, because \<^verbatim>\<open>rglob("*.mp4")\<close> compares the pattern
  case-sensitively, while dropping \<^verbatim>\<open>B.MP4\<close> itself adds it, because that branch
  compares \<^verbatim>\<open>suffix.lower()\<close>.
\<close>

theorem rglob_misses_capitals:
  "dropEvent sample_fs [] [''/v''] = ([''/v/a.mp4'', ''/v/sub/c.mp4''], True)
   \<and> dropEvent sample_fs [] [''/v/B.MP4''] = ([''/v/B.MP4''], True)
   \<and> lower (path_suffix ''B.MP4'') = ''.mp4''
   \<and> \<not> fnmatch_mp4 ''B.MP4''"
  by code_simp

section \<open>Progress and the summary of a batch with a failed file\<close>

text \<open>
  What does hold of a batch that completes: every file was either converted or
  reported in a "Conversion Error" box, and the positions the progress bar was given
  are strictly increasing.
\<close>

lemma completed_batch:
  fixes e s
  defines "evs \<equiv> snd (snd (convert_files e s))"
  assumes d: "fst (convert_files e s) = Done"
  shows "succeeded evs + length (failures evs) = length (list_widget s)
    \<and> sorted_wrt (\<lambda>a b. fst a < fst b) (progress_emitted evs)"
proof -
  define out where "out = resolve_output_dir (output_input s) (now e)"
  define made where "made = (if path_exists e out then [] else [Makedirs out])"
  obtain evl x where l: "for_files e out (length (list_widget s)) 1 (list_widget s) = (evl, x)"
    by fastforce
  have ne: "list_widget s \<noteq> []"
    using d by (auto simp add: convert_files_def Let_def split: if_splits)
  have dir: "path_exists e out \<or> makedirs_ok e out"
    using d ne by (auto simp add: convert_files_def Let_def out_def split: if_splits)
  have x: "x = LoopEnd"
    using d ne dir l [unfolded out_def]
    by (cases x) (auto simp add: convert_files_def Let_def out_def simp del: for_files.simps)
  have evs: "evs = made @ SetValue Zero # evl @
       [Information ''Done''
          (''Converted '' @ str_nat (length (list_widget s)) @ '' files into '' @
           [CHR 0x27] @ out @ [CHR 0x27])]"
    using ne dir l [unfolded out_def] x
    by (auto simp add: convert_files_def Let_def out_def evs_def made_def simp del: for_files.simps)
  have m: "succeeded made = 0" "failures made = []" "progress_emitted made = []"
    by (simp_all add: made_def)
  have c: "succeeded evl + length (failures evl) = length (list_widget s)"
    using counts_for_files_ended [of e out "length (list_widget s)" 1 "list_widget s"] l x by simp
  have p: "sorted_wrt (\<lambda>a b. fst a < fst b) (progress_emitted evl)"
    using progress_for_files_increasing [of e out "length (list_widget s)" 1 "list_widget s"] l
    by simp
  have "succeeded evs = succeeded evl" "failures evs = failures evl"
    "progress_emitted evs = progress_emitted evl"
    by (simp_all add: evs succeeded_append failures_append progress_emitted_append m)
  with c p show ?thesis
    by simp
qed

text \<open>
  Claim C2, on three files. When the converter fails on the second, the progress
  bar is given 1/3 and 3/3 and never 2/3; when it fails on the third, the batch
  completes and the bar is given 1/3 and 2/3 and never 3/3. The \<^verbatim>\<open>continue\<close> of
  the handler skips \<^verbatim>\<open>setValue\<close>.
\<close>

theorem progress_skips_failed_job:
  "fst (convert_files (sample_env second_fails) three_files) = Done
   \<and> progress_emitted (snd (snd (convert_files (sample_env second_fails) three_files))) =
       [(1, 3), (3, 3)]
   \<and> fst (convert_files (sample_env last_fails) three_files) = Done
   \<and> progress_emitted (snd (snd (convert_files (sample_env last_fails) three_files))) =
       [(1, 3), (2, 3)]"
  by code_simp

text \<open>
  Claim C3, on three files of which the second fails: the batch completes, two
  files were converted and one "Conversion Error" box was shown, yet the "Done"
  box says \<^verbatim>\<open>Converted 3 files into 'out'\<close>, the length of the list.
\<close>

theorem summary_counts_failed_job:
  "fst (convert_files (sample_env second_fails) three_files) = Done
   \<and> summaries (snd (snd (convert_files (sample_env second_fails) three_files))) =
       [''Converted 3 files into '' @ [CHR 0x27] @ ''out'' @ [CHR 0x27]]
   \<and> succeeded (snd (snd (convert_files (sample_env second_fails) three_files))) = 2
   \<and> length (failures (snd (snd (convert_files (sample_env second_fails) three_files)))) = 1"
  by code_simp

section \<open>A converter that cannot be found\<close>

lemma convert_files_stops:
  fixes e s
  defines "out \<equiv> resolve_output_dir (output_input s) (now e)"
  assumes files: "list_widget s = before @ f # after"
    and before: "jobs_recoverable e out 1 before"
    and f: "\<not> recoverable (job e out (Suc (length before)) f)"
    and dir: "path_exists e out \<or> makedirs_ok e out"
  shows "convert_files e s =
     (if job e out (Suc (length before)) f = FileNotFoundError then NotFound else Exception,
      s\<lparr>progress_visible := True\<rparr>,
      (if path_exists e out then [] else [Makedirs out]) @ SetValue Zero #
      fst (for_files e out (length (list_widget s)) 1 before) @
      Run (ffmpeg_argv (ffmpeg_path e) f (output_file out f)) (job e out (Suc (length before)) f) #
      (if job e out (Suc (length before)) f = FileNotFoundError
       then [Critical ''FFmpeg Not Found'' (''Cannot find ffmpeg at '' @ ffmpeg_path e)]
       else []))"
proof -
  define n where "n = length (list_widget s)"
  define r where "r = job e out (Suc (length before)) f"
  have a: "for_files e out n 1 (before @ f # after) =
      (fst (for_files e out n 1 before) @ fst (for_files e out n (1 + length before) (f # after)),
       snd (for_files e out n (1 + length before) (f # after)))"
    using before by (rule for_files_append)
  have b: "for_files e out n (1 + length before) (f # after) =
      (Run (ffmpeg_argv (ffmpeg_path e) f (output_file out f)) r #
       (if r = FileNotFoundError
        then [Critical ''FFmpeg Not Found'' (''Cannot find ffmpeg at '' @ ffmpeg_path e)]
        else []),
       if r = FileNotFoundError then Return else Raise)"
    using f unfolding r_def
    by (cases "job e out (Suc (length before)) f")
       (simp_all add: for_files_step recoverable_def del: for_files.simps)
  have loop: "for_files e out n 1 (list_widget s) =
      (fst (for_files e out n 1 before) @
       Run (ffmpeg_argv (ffmpeg_path e) f (output_file out f)) r #
       (if r = FileNotFoundError
        then [Critical ''FFmpeg Not Found'' (''Cannot find ffmpeg at '' @ ffmpeg_path e)]
        else []),
       if r = FileNotFoundError then Return else Raise)"
    using a b files by simp
  have ne: "list_widget s \<noteq> []"
    using files by simp
  show ?thesis
    unfolding convert_files_def Let_def
    using ne dir loop [unfolded n_def out_def r_def]
    by (auto simp add: out_def simp del: for_files.simps)
qed

lemma convert_files_not_found:
  fixes e s
  defines "out \<equiv> resolve_output_dir (output_input s) (now e)"
  assumes files: "list_widget s = before @ f # after"
    and before: "jobs_recoverable e out 1 before"
    and f: "job e out (Suc (length before)) f = FileNotFoundError"
    and dir: "path_exists e out \<or> makedirs_ok e out"
  shows "convert_files e s =
     (NotFound, s\<lparr>progress_visible := True\<rparr>,
      (if path_exists e out then [] else [Makedirs out]) @ SetValue Zero #
      fst (for_files e out (length (list_widget s)) 1 before) @
      [Run (ffmpeg_argv (ffmpeg_path e) f (output_file out f)) FileNotFoundError,
       Critical ''FFmpeg Not Found'' (''Cannot find ffmpeg at '' @ ffmpeg_path e)])"
proof -
  have "\<not> recoverable (job e out (Suc (length before)) f)"
    using f by (simp add: recoverable_def)
  from convert_files_stops [OF files before [unfolded out_def] this [unfolded out_def] dir [unfolded out_def]]
  show ?thesis
    using f by (simp add: out_def)
qed

text \<open>
  Claim C5. Let the file at position \<open>k\<close> (the one after \<open>before\<close>) be the first
  on which the converter cannot be started (\<^verbatim>\<open>subprocess.run\<close> raises
  \<^verbatim>\<open>FileNotFoundError\<close>, or an exception the method does not catch), every
  earlier job having returned or failed with an exit status, and let the output
  directory exist or be made. Then \<^verbatim>\<open>convert_files\<close> stops there: the converter
  was run on the first \<open>k\<close> files, once each and in order, and on no later file;
  the files converted and the "Conversion Error" boxes are those of the \<open>k - 1\<close>
  jobs before, one or the other for each of them; and no "Done" box is shown. On
  \<^verbatim>\<open>FileNotFoundError\<close> the method ends as "FFmpeg Not Found", and the box of that
  name is the last thing it does; otherwise the exception leaves the method.
\<close>

theorem not_found_stops_the_batch:
  fixes e s
  defines "out \<equiv> resolve_output_dir (output_input s) (now e)"
    and "evs \<equiv> snd (snd (convert_files e s))"
  assumes files: "list_widget s = before @ f # after"
    and before: "jobs_recoverable e out 1 before"
    and f: "\<not> recoverable (job e out (Suc (length before)) f)"
    and dir: "path_exists e out \<or> makedirs_ok e out"
  shows "fst (convert_files e s) =
      (if job e out (Suc (length before)) f = FileNotFoundError then NotFound else Exception)
    \<and> runs evs = map (\<lambda>x. ffmpeg_argv (ffmpeg_path e) x (output_file out x)) (before @ [f])
    \<and> length (runs evs) = Suc (length before)
    \<and> (job e out (Suc (length before)) f = FileNotFoundError \<longrightarrow>
         last evs = Critical ''FFmpeg Not Found'' (''Cannot find ffmpeg at '' @ ffmpeg_path e))
    \<and> succeeded evs = succeeded (fst (for_files e out (length (list_widget s)) 1 before))
    \<and> failures evs = failures (fst (for_files e out (length (list_widget s)) 1 before))
    \<and> succeeded evs + length (failures evs) = length before
    \<and> summaries evs = []"
proof -
  define past where "past = fst (for_files e out (length (list_widget s)) 1 before)"
  define made where "made = (if path_exists e out then [] else [Makedirs out])"
  define r where "r = job e out (Suc (length before)) f"
  define box where "box = (if r = FileNotFoundError
       then [Critical ''FFmpeg Not Found'' (''Cannot find ffmpeg at '' @ ffmpeg_path e)]
       else [])"
  have c: "convert_files e s =
     (if r = FileNotFoundError then NotFound else Exception, s\<lparr>progress_visible := True\<rparr>,
      made @ SetValue Zero # past @
      Run (ffmpeg_argv (ffmpeg_path e) f (output_file out f)) r # box)"
    unfolding past_def made_def out_def r_def box_def
    using files before f dir unfolding out_def by (rule convert_files_stops)
  then have evs: "evs = made @ SetValue Zero # past @
      Run (ffmpeg_argv (ffmpeg_path e) f (output_file out f)) r # box"
    by (simp add: evs_def)
  have nr: "r \<noteq> Returned"
    using f by (auto simp add: r_def recoverable_def)
  have m: "runs made = []" "succeeded made = 0" "failures made = []" "summaries made = []"
    by (simp_all add: made_def)
  have x: "runs box = []" "succeeded box = 0" "failures box = []" "summaries box = []"
    by (simp_all add: box_def)
  have j: "succeeded (Run a r # box) = 0" "failures (Run a r # box) = []"
    "summaries (Run a r # box) = []" for a
    using nr x by (cases r; simp)+
  have p: "runs past = map (\<lambda>x. ffmpeg_argv (ffmpeg_path e) x (output_file out x)) before"
    unfolding past_def using before by (rule runs_for_files_ended)
  have "snd (for_files e out (length (list_widget s)) 1 before) = LoopEnd"
    using before by (rule for_files_recoverable_ends)
  then have k: "succeeded past + length (failures past) = length before"
    unfolding past_def by (rule counts_for_files_ended)
  have s: "summaries past = []"
    unfolding past_def by (rule summaries_for_files)
  have 1: "fst (convert_files e s) = (if r = FileNotFoundError then NotFound else Exception)"
    using c by simp
  have 2: "runs evs = map (\<lambda>x. ffmpeg_argv (ffmpeg_path e) x (output_file out x)) (before @ [f])"
    by (simp add: evs runs_append m p x)
  have 3: "length (runs evs) = Suc (length before)"
    by (simp add: 2)
  have 4: "r = FileNotFoundError \<longrightarrow>
      last evs = Critical ''FFmpeg Not Found'' (''Cannot find ffmpeg at '' @ ffmpeg_path e)"
    by (simp add: evs box_def)
  have 5: "succeeded evs = succeeded past"
    by (simp add: evs succeeded_append m j x)
  have 6: "failures evs = failures past"
    by (simp add: evs failures_append m j x)
  have 7: "summaries evs = []"
    by (simp add: evs summaries_append m s j x)
  from 1 2 3 4 5 6 7 k show ?thesis
    unfolding past_def r_def by simp
qed

theorem not_found_witness:
  "\<not> recoverable (job (sample_env (missing_from 2)) ''out'' 2 ''/v/b.mp4'')
   \<and> fst (convert_files (sample_env (missing_from 2)) three_files) = NotFound
   \<and> length (runs (snd (snd (convert_files (sample_env (missing_from 2)) three_files)))) = 2
   \<and> succeeded (snd (snd (convert_files (sample_env (missing_from 2)) three_files))) = 1"
proof -
  have h1: "list_widget three_files = [''/v/a.mp4''] @ ''/v/b.mp4'' # [''/w/a.MP4'']"
    by code_simp
  have h2: "jobs_recoverable (sample_env (missing_from 2))
      (resolve_output_dir (output_input three_files) (now (sample_env (missing_from 2)))) 1
      [''/v/a.mp4'']"
    by code_simp
  have h3: "\<not> recoverable (job (sample_env (missing_from 2))
      (resolve_output_dir (output_input three_files) (now (sample_env (missing_from 2))))
      (Suc (length [''/v/a.mp4''])) ''/v/b.mp4'')"
    by code_simp
  have h4: "path_exists (sample_env (missing_from 2))
       (resolve_output_dir (output_input three_files) (now (sample_env (missing_from 2)))) \<or>
     makedirs_ok (sample_env (missing_from 2))
       (resolve_output_dir (output_input three_files) (now (sample_env (missing_from 2))))"
    by code_simp
  have h5: "succeeded (fst (for_files (sample_env (missing_from 2))
      (resolve_output_dir (output_input three_files) (now (sample_env (missing_from 2))))
      (length (list_widget three_files)) 1 [''/v/a.mp4''])) = 1"
    by code_simp
  have h6: "job (sample_env (missing_from 2))
      (resolve_output_dir (output_input three_files) (now (sample_env (missing_from 2))))
      (Suc (length [''/v/a.mp4''])) ''/v/b.mp4'' = FileNotFoundError"
    by code_simp
  have h7: "\<not> recoverable (job (sample_env (missing_from 2)) ''out'' 2 ''/v/b.mp4'')"
    by code_simp
  from not_found_stops_the_batch [OF h1 h2 h3 h4] h5 h6 h7 show ?thesis
    by simp
qed

section \<open>The list of files after a batch\<close>

lemma convert_files_cases:
  fixes e s
  defines "out \<equiv> resolve_output_dir (output_input s) (now e)"
    and "s' \<equiv> fst (snd (convert_files e s))"
    and "evs \<equiv> snd (snd (convert_files e s))"
  shows "(fst (convert_files e s) \<noteq> Done \<longrightarrow> list_widget s' = list_widget s \<and> summaries evs = [])
    \<and> (fst (convert_files e s) = Done \<longrightarrow>
         list_widget s' = [] \<and>
         summaries evs = [''Converted '' @ str_nat (length (list_widget s)) @ '' files into '' @
                          [CHR 0x27] @ out @ [CHR 0x27]])"
proof -
  obtain evl x where l: "for_files e out (length (list_widget s)) 1 (list_widget s) = (evl, x)"
    by fastforce
  have sl: "summaries evl = []"
    using summaries_for_files [of e out "length (list_widget s)" 1 "list_widget s"] l by simp
  show ?thesis
  proof (cases "list_widget s = []")
    case True
    then show ?thesis
      by (simp add: convert_files_def Let_def s'_def evs_def)
  next
    case False
    show ?thesis
    proof (cases "\<not> path_exists e out \<and> \<not> makedirs_ok e out")
      case True
      then show ?thesis
        using False by (simp add: convert_files_def Let_def s'_def evs_def out_def)
    next
      case dir: False
      show ?thesis
      proof (cases x)
        case LoopEnd
        then show ?thesis
          using False dir l [unfolded out_def] sl
          by (simp add: convert_files_def Let_def s'_def evs_def out_def summaries_append
                   del: for_files.simps)
      next
        case Return
        then show ?thesis
          using False dir l [unfolded out_def] sl
          by (simp add: convert_files_def Let_def s'_def evs_def out_def summaries_append
                   del: for_files.simps)
      next
        case Raise
        then show ?thesis
          using False dir l [unfolded out_def] sl
          by (simp add: convert_files_def Let_def s'_def evs_def out_def summaries_append
                   del: for_files.simps)
      qed
    qed
  qed
qed

text \<open>
  Claim C10. When the converter cannot be started on some file of the batch (the
  earlier jobs having returned or failed with an exit status, the output directory
  being there), \<^verbatim>\<open>convert_files\<close> returns with the window as it was but for the
  progress bar, which stays shown: the list holds the same files in the same order,
  and no "Done" box was shown. However the method ends, if it does not complete the
  batch the list is as it was and no "Done" box was shown; if it completes the
  batch, the list is empty and one "Done" box was shown.
\<close>

theorem list_kept_unless_completed:
  fixes e s
  defines "out \<equiv> resolve_output_dir (output_input s) (now e)"
    and "s' \<equiv> fst (snd (convert_files e s))"
    and "evs \<equiv> snd (snd (convert_files e s))"
  shows "(list_widget s = before @ f # after \<and> jobs_recoverable e out 1 before \<and>
          job e out (Suc (length before)) f = FileNotFoundError \<and>
          (path_exists e out \<or> makedirs_ok e out) \<longrightarrow>
            fst (convert_files e s) = NotFound \<and> s' = s\<lparr>progress_visible := True\<rparr> \<and>
            list_widget s' = list_widget s \<and> summaries evs = [])
    \<and> (fst (convert_files e s) \<noteq> Done \<longrightarrow> list_widget s' = list_widget s \<and> summaries evs = [])
    \<and> (fst (convert_files e s) = Done \<longrightarrow> list_widget s' = [] \<and> length (summaries evs) = 1)"
proof -
  have a: "fst (convert_files e s) = NotFound \<and> s' = s\<lparr>progress_visible := True\<rparr> \<and>
            list_widget s' = list_widget s \<and> summaries evs = []"
    if h: "list_widget s = before @ f # after \<and> jobs_recoverable e out 1 before \<and>
          job e out (Suc (length before)) f = FileNotFoundError \<and>
          (path_exists e out \<or> makedirs_ok e out)"
  proof -
    from h have h1: "list_widget s = before @ f # after"
      and h2: "jobs_recoverable e (resolve_output_dir (output_input s) (now e)) 1 before"
      and h3: "job e (resolve_output_dir (output_input s) (now e)) (Suc (length before)) f =
               FileNotFoundError"
      and h4: "path_exists e (resolve_output_dir (output_input s) (now e)) \<or>
               makedirs_ok e (resolve_output_dir (output_input s) (now e))"
      by (simp_all add: out_def)
    note c = convert_files_not_found [OF h1 h2 h3 h4]
    have n: "fst (convert_files e s) = NotFound"
      by (simp add: c)
    have t: "s' = s\<lparr>progress_visible := True\<rparr>"
      by (simp add: c s'_def)
    have "fst (convert_files e s) \<noteq> Done"
      by (simp add: n)
    then have "summaries evs = []"
      using convert_files_cases [of e s] by (simp add: evs_def)
    with n t show ?thesis
      by simp
  qed
  have b: "fst (convert_files e s) \<noteq> Done \<longrightarrow> list_widget s' = list_widget s \<and> summaries evs = []"
    using convert_files_cases [of e s] by (simp add: evs_def s'_def)
  have c: "fst (convert_files e s) = Done \<longrightarrow> list_widget s' = [] \<and> length (summaries evs) = 1"
    using convert_files_cases [of e s] by (simp add: evs_def s'_def)
  from a b c show ?thesis
    by blast
qed

theorem list_kept_witness:
  "fst (convert_files (sample_env (missing_from 2)) three_files) = NotFound
   \<and> list_widget (fst (snd (convert_files (sample_env (missing_from 2)) three_files))) =
       [''/v/a.mp4'', ''/v/b.mp4'', ''/w/a.MP4'']
   \<and> summaries (snd (snd (convert_files (sample_env (missing_from 2)) three_files))) = []
   \<and> fst (convert_files (sample_env all_return) three_files) = Done
   \<and> list_widget (fst (snd (convert_files (sample_env all_return) three_files))) = []"
proof -
  have h: "list_widget three_files = [''/v/a.mp4''] @ ''/v/b.mp4'' # [''/w/a.MP4''] \<and>
      jobs_recoverable (sample_env (missing_from 2))
        (resolve_output_dir (output_input three_files) (now (sample_env (missing_from 2)))) 1
        [''/v/a.mp4''] \<and>
      job (sample_env (missing_from 2))
        (resolve_output_dir (output_input three_files) (now (sample_env (missing_from 2))))
        (Suc (length [''/v/a.mp4''])) ''/v/b.mp4'' = FileNotFoundError \<and>
      (path_exists (sample_env (missing_from 2))
         (resolve_output_dir (output_input three_files) (now (sample_env (missing_from 2)))) \<or>
       makedirs_ok (sample_env (missing_from 2))
         (resolve_output_dir (output_input three_files) (now (sample_env (missing_from 2)))))"
    by code_simp
  have d: "fst (convert_files (sample_env all_return) three_files) = Done"
    by code_simp
  have l: "list_widget three_files = [''/v/a.mp4'', ''/v/b.mp4'', ''/w/a.MP4'']"
    by code_simp
  note t = list_kept_unless_completed
    [of three_files "[''/v/a.mp4'']" "''/v/b.mp4''" "[''/w/a.MP4'']" "sample_env (missing_from 2)"]
  note u = list_kept_unless_completed
    [of three_files "[]" "[]" "[]" "sample_env all_return"]
  from t [THEN conjunct1, THEN mp, OF h] u [THEN conjunct2, THEN conjunct2, THEN mp, OF d] d l
  show ?thesis
    by simp
qed

section \<open>Two sources with the same base name\<close>

lemma disk_after_append: "disk_after disk (xs @ ys) = disk_after (disk_after disk xs) ys"
  by (simp add: disk_after_def)

lemma disk_after_job:
  "disk_after disk [Run (ffmpeg_argv p f out) Returned, SetValue v, ProcessEvents] out = Some f"
  by (simp add: disk_after_def ffmpeg_argv_def)

lemma for_files_returned:
  "job e d i f = Returned \<Longrightarrow>
   for_files e d t i (f # fs) =
     ([Run (ffmpeg_argv (ffmpeg_path e) f (output_file d f)) Returned,
       SetValue (Percent i t), ProcessEvents] @ fst (for_files e d t (Suc i) fs),
      snd (for_files e d t (Suc i) fs))"
  by (simp add: for_files_step del: for_files.simps)

lemma convert_files_events:
  fixes e s
  defines "out \<equiv> resolve_output_dir (output_input s) (now e)"
  assumes "list_widget s \<noteq> []" "path_exists e out \<or> makedirs_ok e out"
  shows "\<exists>rest. snd (snd (convert_files e s)) =
      (if path_exists e out then [] else [Makedirs out]) @ SetValue Zero #
      fst (for_files e out (length (list_widget s)) 1 (list_widget s)) @ rest"
proof -
  obtain evl x where l: "for_files e out (length (list_widget s)) 1 (list_widget s) = (evl, x)"
    by fastforce
  show ?thesis
    using assms(2,3) l [unfolded out_def]
    by (cases x) (auto simp add: convert_files_def Let_def out_def simp del: for_files.simps)
qed

text \<open>
  Claim C9. Let two files of one batch, \<open>f1\<close> before \<open>f2\<close>, have the same base
  name, let the run reach both (the jobs before and between them returning or
  failing with an exit status, the output directory being there) and let the
  converter return on both. Then both have the same output file, both runs are given
  \<^verbatim>\<open>-y\<close> as their last argument, and the run has a moment at which that output
  file holds the conversion of \<open>f1\<close> and a later one, right after the job of
  \<open>f2\<close>, at which it holds the conversion of \<open>f2\<close>; the job of \<open>f2\<close> is the
  run of the converter, the progress value and the event pump, with no message box.
\<close>

theorem equal_stems_overwrite:
  fixes e s
  defines "out \<equiv> resolve_output_dir (output_input s) (now e)"
    and "evs \<equiv> snd (snd (convert_files e s))"
    and "n \<equiv> length (list_widget s)"
  assumes files: "list_widget s = before @ f1 # between @ f2 # after"
    and stems: "base_name f1 = base_name f2"
    and dir: "path_exists e out \<or> makedirs_ok e out"
    and before: "jobs_recoverable e out 1 before"
    and first: "job e out (Suc (length before)) f1 = Returned"
    and between: "jobs_recoverable e out (Suc (Suc (length before))) between"
    and second: "job e out (Suc (Suc (length before + length between))) f2 = Returned"
  shows "output_file out f1 = output_file out f2
    \<and> last (ffmpeg_argv (ffmpeg_path e) f1 (output_file out f1)) = ''-y''
    \<and> last (ffmpeg_argv (ffmpeg_path e) f2 (output_file out f2)) = ''-y''
    \<and> (\<exists>evs1 evs2 rest.
          evs = evs1 @ evs2 @
            [Run (ffmpeg_argv (ffmpeg_path e) f2 (output_file out f2)) Returned,
             SetValue (Percent (Suc (Suc (length before + length between))) n),
             ProcessEvents] @ rest
          \<and> disk_after disk evs1 (output_file out f1) = Some f1
          \<and> disk_after disk
               (evs1 @ evs2 @
                [Run (ffmpeg_argv (ffmpeg_path e) f2 (output_file out f2)) Returned,
                 SetValue (Percent (Suc (Suc (length before + length between))) n),
                 ProcessEvents]) (output_file out f1) = Some f2)"
proof -
  define made where "made = (if path_exists e out then [] else [Makedirs out])"
  define j1 where "j1 = [Run (ffmpeg_argv (ffmpeg_path e) f1 (output_file out f1)) Returned,
       SetValue (Percent (Suc (length before)) n), ProcessEvents]"
  define j2 where "j2 = [Run (ffmpeg_argv (ffmpeg_path e) f2 (output_file out f2)) Returned,
       SetValue (Percent (Suc (Suc (length before + length between))) n), ProcessEvents]"
  define eb where "eb = fst (for_files e out n 1 before)"
  define em where "em = fst (for_files e out n (Suc (Suc (length before))) between)"
  define ea where "ea = fst (for_files e out n (Suc (Suc (Suc (length before + length between)))) after)"
  have same: "output_file out f1 = output_file out f2"
    using stems by (simp add: output_file_def)
  have a1: "fst (for_files e out n 1 (before @ f1 # between @ f2 # after)) =
      eb @ fst (for_files e out n (Suc (length before)) (f1 # between @ f2 # after))"
    using for_files_append [OF before, of n "f1 # between @ f2 # after"] by (simp add: eb_def)
  have a2: "fst (for_files e out n (Suc (length before)) (f1 # between @ f2 # after)) =
      j1 @ fst (for_files e out n (Suc (Suc (length before))) (between @ f2 # after))"
    using for_files_returned [OF first, of n "between @ f2 # after"] by (simp add: j1_def)
  have a3: "fst (for_files e out n (Suc (Suc (length before))) (between @ f2 # after)) =
      em @ fst (for_files e out n (Suc (Suc (length before + length between))) (f2 # after))"
    using for_files_append [OF between, of n "f2 # after"] by (simp add: em_def)
  have a4: "fst (for_files e out n (Suc (Suc (length before + length between))) (f2 # after)) =
      j2 @ ea"
    using for_files_returned [OF second, of n after] by (simp add: j2_def ea_def)
  have loop: "fst (for_files e out n 1 (list_widget s)) = eb @ j1 @ em @ j2 @ ea"
    by (simp only: files a1 a2 a3 a4)
  have ne: "list_widget s \<noteq> []"
    using files by simp
  obtain rest where "evs = made @ SetValue Zero # fst (for_files e out n 1 (list_widget s)) @ rest"
    using convert_files_events [OF ne dir [unfolded out_def]]
    unfolding evs_def out_def n_def made_def by blast
  then have evs: "evs = (made @ SetValue Zero # eb @ j1) @ em @ j2 @ (ea @ rest)"
    using loop by simp
  have d1: "disk_after disk (made @ SetValue Zero # eb @ j1) (output_file out f1) = Some f1"
    unfolding j1_def
    using disk_after_append [of disk "made @ SetValue Zero # eb"] disk_after_job
    by (metis append.assoc append_Cons)
  have d2: "disk_after disk ((made @ SetValue Zero # eb @ j1) @ em @ j2) (output_file out f1) = Some f2"
    unfolding j2_def same
    using disk_after_append [of disk "(made @ SetValue Zero # eb @ j1) @ em"] disk_after_job
    by (metis append.assoc)
  have y: "last (ffmpeg_argv (ffmpeg_path e) f (output_file out f)) = ''-y''" for f
    by (simp add: ffmpeg_argv_def)
  have "\<exists>evs1 evs2 rest.
          evs = evs1 @ evs2 @ j2 @ rest
          \<and> disk_after disk evs1 (output_file out f1) = Some f1
          \<and> disk_after disk (evs1 @ evs2 @ j2) (output_file out f1) = Some f2"
    using evs d1 d2 by blast
  with same y show ?thesis
    unfolding j2_def by blast
qed

theorem equal_stems_witness:
  "base_name ''/v/a.mp4'' = base_name ''/w/a.MP4''
   \<and> ''/v/a.mp4'' \<noteq> ''/w/a.MP4''
   \<and> output_file (resolve_output_dir (output_input three_files) (now (sample_env second_fails)))
        ''/v/a.mp4'' =
       output_file (resolve_output_dir (output_input three_files) (now (sample_env second_fails)))
        ''/w/a.MP4''
   \<and> output_file ''out'' ''/w/a.MP4'' = ''out/a.mov''
   \<and> disk_after Map.empty (snd (snd (convert_files (sample_env second_fails) three_files)))
        ''out/a.mov'' = Some ''/w/a.MP4''"
proof -
  have h1: "list_widget three_files = [] @ ''/v/a.mp4'' # [''/v/b.mp4''] @ ''/w/a.MP4'' # []"
    by code_simp
  have h2: "base_name ''/v/a.mp4'' = base_name ''/w/a.MP4''"
    by code_simp
  have h3: "path_exists (sample_env second_fails)
       (resolve_output_dir (output_input three_files) (now (sample_env second_fails))) \<or>
     makedirs_ok (sample_env second_fails)
       (resolve_output_dir (output_input three_files) (now (sample_env second_fails)))"
    by code_simp
  have h4: "jobs_recoverable (sample_env second_fails)
      (resolve_output_dir (output_input three_files) (now (sample_env second_fails))) 1 []"
    by code_simp
  have h5: "job (sample_env second_fails)
      (resolve_output_dir (output_input three_files) (now (sample_env second_fails)))
      (Suc (length ([] :: string list))) ''/v/a.mp4'' = Returned"
    by code_simp
  have h6: "jobs_recoverable (sample_env second_fails)
      (resolve_output_dir (output_input three_files) (now (sample_env second_fails)))
      (Suc (Suc (length ([] :: string list)))) [''/v/b.mp4'']"
    by code_simp
  have h7: "job (sample_env second_fails)
      (resolve_output_dir (output_input three_files) (now (sample_env second_fails)))
      (Suc (Suc (length ([] :: string list) + length [''/v/b.mp4'']))) ''/w/a.MP4'' = Returned"
    by code_simp
  have n: "''/v/a.mp4'' \<noteq> ''/w/a.MP4''"
    by simp
  have o: "output_file ''out'' ''/w/a.MP4'' = ''out/a.mov''"
    by code_simp
  have d: "disk_after Map.empty (snd (snd (convert_files (sample_env second_fails) three_files)))
        ''out/a.mov'' = Some ''/w/a.MP4''"
    by code_simp
  from equal_stems_overwrite [OF h1 h2 h3 h4 h5 h6 h7, THEN conjunct1] h2 n o d
  show ?thesis
    by (intro conjI)
qed

end
